theory Spec2Isabelle
  imports Main "HOL-Library.Sublist"
begin

section \<open>The Go library functions the query builder calls\<close>

text \<open>
  Go strings are byte sequences; they are modelled as \<^typ>\<open>string\<close> (a list of
  8-bit characters). A panic (\<^verbatim>\<open>log.Panicf\<close>, or a run-time slice bound
  failure) is a value: functions that can panic return \<open>panic + 'a\<close>, with
  \<open>Inl\<close> for the panic and its message.
\<close>

datatype panic = Panic string

definition HasPrefix :: "string \<Rightarrow> string \<Rightarrow> bool" where
  "HasPrefix s pre = prefix pre s"

definition HasSuffix :: "string \<Rightarrow> string \<Rightarrow> bool" where
  "HasSuffix s suf = suffix suf s"

text \<open>\<^verbatim>\<open>strings.Join(elems, sep)\<close>.\<close>

fun Join :: "string list \<Rightarrow> string \<Rightarrow> string" where
  "Join [] sep = []"
| "Join [x] sep = x"
| "Join (x # y # ys) sep = x @ sep @ Join (y # ys) sep"

text \<open>
  \<^verbatim>\<open>strings.Repeat(s, count)\<close> for a count that is not negative (the only
  call passes \<^verbatim>\<open>v.Len()-1\<close> after \<^verbatim>\<open>v.Len() == 0\<close> has been excluded).
\<close>

definition Repeat :: "string \<Rightarrow> nat \<Rightarrow> string" where
  "Repeat s n = concat (replicate n s)"

text \<open>
  \<^verbatim>\<open>strings.Split(s, sep)\<close> for a separator that is not empty (the only call
  passes \<^verbatim>\<open>"__"\<close>): the leftmost occurrence of the separator ends a part,
  and the search goes on behind it. \<open>splitFrom sep k acc s\<close> still has \<open>k\<close> bytes of
  a matched separator to skip, and \<open>acc\<close> holds the current part, reversed.
\<close>

fun splitFrom :: "string \<Rightarrow> nat \<Rightarrow> string \<Rightarrow> string \<Rightarrow> string list" where
  "splitFrom sep (Suc k) acc (c # cs) = splitFrom sep k acc cs"
| "splitFrom sep 0 acc (c # cs) =
     (if sep \<noteq> [] \<and> prefix sep (c # cs) then rev acc # splitFrom sep (length sep - 1) [] cs
      else splitFrom sep 0 (c # acc) cs)"
| "splitFrom sep k acc [] = [rev acc]"

definition Split :: "string \<Rightarrow> string \<Rightarrow> string list" where
  "Split s sep = splitFrom sep 0 [] s"

text \<open>
  \<^verbatim>\<open>strings.TrimSpace\<close> removes the leading and the trailing white space, as
  \<^verbatim>\<open>unicode.IsSpace\<close> defines it, of a UTF-8 string. \<open>spaceRunes\<close> lists the
  UTF-8 encodings of those code points: U+0009 to U+000D, U+0020, U+0085, U+00A0,
  U+1680, U+2000 to U+200A, U+2028, U+2029, U+202F, U+205F and U+3000.
\<close>

definition spaceRunes :: "string list" where
  "spaceRunes =
    [[CHR 0x09], [CHR 0x0A], [CHR 0x0B], [CHR 0x0C], [CHR 0x0D], [CHR 0x20],
     [CHR 0xC2, CHR 0x85], [CHR 0xC2, CHR 0xA0],
     [CHR 0xE1, CHR 0x9A, CHR 0x80],
     [CHR 0xE2, CHR 0x80, CHR 0x80], [CHR 0xE2, CHR 0x80, CHR 0x81],
     [CHR 0xE2, CHR 0x80, CHR 0x82], [CHR 0xE2, CHR 0x80, CHR 0x83],
     [CHR 0xE2, CHR 0x80, CHR 0x84], [CHR 0xE2, CHR 0x80, CHR 0x85],
     [CHR 0xE2, CHR 0x80, CHR 0x86], [CHR 0xE2, CHR 0x80, CHR 0x87],
     [CHR 0xE2, CHR 0x80, CHR 0x88], [CHR 0xE2, CHR 0x80, CHR 0x89],
     [CHR 0xE2, CHR 0x80, CHR 0x8A],
     [CHR 0xE2, CHR 0x80, CHR 0xA8], [CHR 0xE2, CHR 0x80, CHR 0xA9],
     [CHR 0xE2, CHR 0x80, CHR 0xAF],
     [CHR 0xE2, CHR 0x81, CHR 0x9F],
     [CHR 0xE3, CHR 0x80, CHR 0x80]]"

text \<open>
  The width in bytes of the rune of \<open>runes\<close> that \<open>s\<close> starts with, 0 when it starts
  with none.
\<close>

definition runeWidth :: "string list \<Rightarrow> string \<Rightarrow> nat" where
  "runeWidth runes s = (case filter (\<lambda>r. prefix r s) runes of [] \<Rightarrow> 0 | r # _ \<Rightarrow> length r)"

text \<open>
  \<open>trimRunes runes k s\<close> drops \<open>k\<close> more bytes of a rune already recognised, and then
  every further leading rune of \<open>runes\<close>.
\<close>

fun trimRunes :: "string list \<Rightarrow> nat \<Rightarrow> string \<Rightarrow> string" where
  "trimRunes runes (Suc k) (c # cs) = trimRunes runes k cs"
| "trimRunes runes 0 (c # cs) =
     (case runeWidth runes (c # cs) of 0 \<Rightarrow> c # cs | Suc k \<Rightarrow> trimRunes runes k cs)"
| "trimRunes runes k [] = []"

definition TrimSpace :: "string \<Rightarrow> string" where
  "TrimSpace s = rev (trimRunes (map rev spaceRunes) 0 (rev (trimRunes spaceRunes 0 s)))"

text \<open>
  The slice expressions \<^verbatim>\<open>s[i:]\<close> and \<^verbatim>\<open>s[:j]\<close>, which panic when the
  bound is out of range.
\<close>

definition sliceFrom :: "string \<Rightarrow> int \<Rightarrow> panic + string" where
  "sliceFrom s i =
     (if 0 \<le> i \<and> i \<le> int (length s) then Inr (drop (nat i) s)
      else Inl (Panic ''runtime error: slice bounds out of range''))"

definition sliceTo :: "string \<Rightarrow> int \<Rightarrow> panic + string" where
  "sliceTo s j =
     (if 0 \<le> j \<and> j \<le> int (length s) then Inr (take (nat j) s)
      else Inl (Panic ''runtime error: slice bounds out of range''))"

section \<open>Values as \<^verbatim>\<open>reflect\<close> sees them\<close>

datatype kind = Invalid | Bool | IntKind | Int8 | Int16 | Int32 | Int64
  | Uint | Uint8 | Uint16 | Uint32 | Uint64 | Uintptr
  | Float32 | Float64 | Complex64 | Complex128
  | Array | Chan | Func | Interface | Map | Ptr | Slice | String | Struct | UnsafePointer

text \<open>
  The kinds of \<^verbatim>\<open>reflect\<close>; \<open>IntKind\<close> is \<^verbatim>\<open>reflect.Int\<close> (the name
  \<open>Int\<close> is taken in HOL).
\<close>

text \<open>\<^verbatim>\<open>Kind.String()\<close>, which \<^verbatim>\<open>%s\<close> and \<^verbatim>\<open>%+v\<close> print.\<close>

fun kindString :: "kind \<Rightarrow> string" where
  "kindString Invalid = ''invalid''"
| "kindString Bool = ''bool''"
| "kindString IntKind = ''int''"
| "kindString Int8 = ''int8''"
| "kindString Int16 = ''int16''"
| "kindString Int32 = ''int32''"
| "kindString Int64 = ''int64''"
| "kindString Uint = ''uint''"
| "kindString Uint8 = ''uint8''"
| "kindString Uint16 = ''uint16''"
| "kindString Uint32 = ''uint32''"
| "kindString Uint64 = ''uint64''"
| "kindString Uintptr = ''uintptr''"
| "kindString Float32 = ''float32''"
| "kindString Float64 = ''float64''"
| "kindString Complex64 = ''complex64''"
| "kindString Complex128 = ''complex128''"
| "kindString Array = ''array''"
| "kindString Chan = ''chan''"
| "kindString Func = ''func''"
| "kindString Interface = ''interface''"
| "kindString Map = ''map''"
| "kindString Ptr = ''ptr''"
| "kindString Slice = ''slice''"
| "kindString String = ''string''"
| "kindString Struct = ''struct''"
| "kindString UnsafePointer = ''unsafe.Pointer''"

text \<open>
  A filter value (Go's \<^verbatim>\<open>any\<close>). \<open>Val k s\<close> is a value that is neither a slice
  nor an array: \<open>k\<close> is its kind and \<open>s\<close> stands for its content (\<open>Val Invalid\<close> is
  \<^verbatim>\<open>nil\<close>). \<open>SliceVal ek xs\<close> and \<open>ArrayVal ek xs\<close> are a slice and an array
  with the elements \<open>xs\<close>; \<open>ek\<close> is the kind \<^verbatim>\<open>v.Index(0).Kind()\<close> reports,
  which the element type fixes (\<open>Interface\<close> for a \<^verbatim>\<open>[]any\<close>, whatever it
  holds).
\<close>

datatype gval = Val kind string | SliceVal kind "gval list" | ArrayVal kind "gval list"

fun Kind :: "gval \<Rightarrow> kind" where
  "Kind (Val k s) = k"
| "Kind (SliceVal ek xs) = Slice"
| "Kind (ArrayVal ek xs) = Array"

fun Elems :: "gval \<Rightarrow> gval list" where
  "Elems (Val k s) = []"
| "Elems (SliceVal ek xs) = xs"
| "Elems (ArrayVal ek xs) = xs"

definition Len :: "gval \<Rightarrow> nat" where
  "Len v = length (Elems v)"

fun ElemKind :: "gval \<Rightarrow> kind" where
  "ElemKind (Val k s) = Invalid"
| "ElemKind (SliceVal ek xs) = ek"
| "ElemKind (ArrayVal ek xs) = ek"

section \<open>The MySQL operator table (\<^verbatim>\<open>mysql/operators.go\<close>)\<close>

definition operators :: "(string \<times> string) list" where
  "operators =
    [(''exact'', ''=''),
     (''exclude'', ''!=''),
     (''iexact'', ''LIKE''),
     (''contains'', ''LIKE BINARY''),
     (''icontains'', ''LIKE''),
     (''gt'', ''>''),
     (''gte'', ''>=''),
     (''lt'', ''<''),
     (''lte'', ''<=''),
     (''startswith'', ''LIKE BINARY''),
     (''endswith'', ''LIKE BINARY''),
     (''istartswith'', ''LIKE''),
     (''iendswith'', ''LIKE''),
     (''in'', ''IN''),
     (''between'', ''BETWEEN'')]"

text \<open>Indexing a Go map with a key it does not hold gives the zero value, here \<^verbatim>\<open>""\<close>.\<close>

definition OperatorSQL :: "string \<Rightarrow> string" where
  "OperatorSQL operator = (case map_of operators operator of None \<Rightarrow> [] | Some s \<Rightarrow> s)"

section \<open>The query set (\<^verbatim>\<open>queryset.go\<close>)\<close>

definition ANDOR :: "string list" where
  "ANDOR = [''AND'', ''OR'']"

definition BLANKNOT :: "string list" where
  "BLANKNOT = ['''', ''NOT'']"

record queryFilter =
  SQL :: string
  Args :: "gval list"

record QuerySetImpl =
  Operator :: "string \<Rightarrow> string"
  selectColumn :: string
  whereCondition :: queryFilter
  filterCondition :: "queryFilter list"
  excludeCondition :: "queryFilter list"
  orderBySQL :: string
  limitSQL :: string
  groupSQL :: string

definition NewQuerySet :: "(string \<Rightarrow> string) \<Rightarrow> QuerySetImpl" where
  "NewQuerySet op =
    \<lparr>Operator = op, selectColumn = [], whereCondition = \<lparr>SQL = [], Args = []\<rparr>,
     filterCondition = [], excludeCondition = [], orderBySQL = [], limitSQL = [],
     groupSQL = []\<rparr>"

subsection \<open>\<^verbatim>\<open>filterHandler\<close>\<close>

text \<open>
  The filter is a Go map; the loop of \<^verbatim>\<open>filterHandler\<close> ranges over it in an
  order Go does not fix. The model takes the pairs as a list, in the order the loop
  visits them. (The source declares the parameter variadic and yet ranges over it as
  over one map of keys to values; the model follows the loop body, one map for each
  call, as \<^verbatim>\<open>ExcludeToSQL\<close> passes it.)

  \<open>parseLookups\<close> is the head of the loop body (lines 120 to 140): it splits the key
  and sets \<^verbatim>\<open>fieldName\<close>, \<^verbatim>\<open>operator\<close> and \<^verbatim>\<open>flag\<close>. The latter two are declared
  outside the loop, so a key of more than three parts, which no branch handles, leaves
  them as the previous pair set them (\<open>prev\<close>).
\<close>

definition parseLookups :: "string \<times> nat \<Rightarrow> string \<Rightarrow> panic + (string \<times> string \<times> nat)" where
  "parseLookups prev fieldLookups =
    (let fl = Split fieldLookups ''__''; fieldName = fl ! 0 in
     if length fl = 1 then Inr (fieldName, ''exact'', 0)
     else if length fl = 2 then
       (if fl ! 1 \<noteq> ''Q'' then Inr (fieldName, fl ! 1, 0) else Inr (fieldName, ''exact'', 1))
     else if length fl = 3 then
       (if fl ! 2 = ''Q'' then Inr (fieldName, fl ! 1, 1)
        else Inl (Panic (''FieldLookups ['' @ fieldLookups @ ''] is invalid.'')))
     else Inr (fieldName, fst prev, snd prev))"

definition scalarKind :: "kind \<Rightarrow> bool" where
  "scalarKind k \<longleftrightarrow>
     k \<in> {String, Bool, Uint, Uint16, Uint32, Uint64, IntKind, Int8, Int16, Int32, Int64,
          Float32, Float64}"

definition unsupportedSliceKind :: "kind \<Rightarrow> bool" where
  "unsupportedSliceKind k \<longleftrightarrow>
     k \<in> {Invalid, Chan, Func, Map, Ptr, Uintptr, UnsafePointer, Complex64, Complex128}"

text \<open>
  \<open>compileValue\<close> is the rest of the loop body (lines 142 to 188): it appends the
  pair's fragment to \<^verbatim>\<open>filterSql\<close> and its arguments to
  \<^verbatim>\<open>filterArgs\<close>, or panics.
\<close>

definition compileValue ::
  "(string \<Rightarrow> string) \<Rightarrow> string \<Rightarrow> string \<Rightarrow> string \<Rightarrow> nat \<Rightarrow> gval \<Rightarrow> string \<times> gval list
     \<Rightarrow> panic + (string \<times> gval list)" where
  "compileValue opSQL fieldLookups fieldName operator flag v acc =
    (let op = opSQL operator; filterSql = fst acc; filterArgs = snd acc in
     if scalarKind (Kind v) then
       (if operator = ''in'' \<or> operator = ''between'' then
          Inl (Panic (''Operator ['' @ operator @ ''] must be used with slice or array.''))
        else
          Inr (filterSql @ ANDOR ! flag @ '' `'' @ fieldName @ ''`'' @ op @ ''? '',
               filterArgs @ [v]))
     else if Kind v = Slice \<or> Kind v = Array then
       (if Len v = 0 then
          Inl (Panic (''Empty slice or array for key ['' @ fieldLookups @ ''].''))
        else if unsupportedSliceKind (ElemKind v) then
          Inl (Panic (''Unsupported slice type ['' @ kindString (ElemKind v) @ ''] for key [''
                 @ fieldLookups @ ''].''))
        else if operator = ''exact'' \<or> operator = ''exclude'' \<or> operator = ''contains''
                \<or> operator = ''icontains'' then
          Inr (filterSql @ ANDOR ! flag
                 @ '' ( '' @ fieldName @ '' '' @ op @ '' ?''
                 @ Repeat ('' '' @ ANDOR ! flag @ '' '' @ fieldName @ '' '' @ op @ '' ?'') (Len v - 1)
                 @ '' ) '',
               filterArgs @ Elems v)
        else if operator = ''in'' then
          Inr (filterSql @ ANDOR ! flag
                 @ '' '' @ fieldName @ '' '' @ BLANKNOT ! flag @ '' '' @ op
                 @ '' (?'' @ Repeat '',?'' (Len v - 1) @ '') '',
               filterArgs @ Elems v)
        else if operator = ''between'' then
          Inr (filterSql @ ANDOR ! flag
                 @ '' '' @ fieldName @ '' '' @ BLANKNOT ! flag @ '' '' @ op @ '' ? AND ? '',
               filterArgs @ Elems v)
        else Inl (Panic (''Unsupported slice operator ['' @ operator @ ''].'')))
     else
       Inl (Panic (''Unsupported data type ['' @ kindString (Kind v) @ ''] for key [''
              @ fieldLookups @ ''].'')))"

text \<open>
  The loop: the state is \<^verbatim>\<open>operator\<close>, \<^verbatim>\<open>flag\<close>,
  \<^verbatim>\<open>filterSql\<close> and \<^verbatim>\<open>filterArgs\<close>; the first panic ends it.
\<close>

fun filterLoop ::
  "(string \<Rightarrow> string) \<Rightarrow> (string \<times> nat) \<times> (string \<times> gval list) \<Rightarrow> (string \<times> gval) list
     \<Rightarrow> panic + (string \<times> gval list)" where
  "filterLoop opSQL (prev, acc) [] = Inr acc"
| "filterLoop opSQL (prev, acc) ((fieldLookups, filedValue) # rest) =
     (case parseLookups prev fieldLookups of
        Inl e \<Rightarrow> Inl e
      | Inr (fieldName, operator, flag) \<Rightarrow>
          (case compileValue opSQL fieldLookups fieldName operator flag filedValue acc of
             Inl e \<Rightarrow> Inl e
           | Inr acc' \<Rightarrow> filterLoop opSQL ((operator, flag), acc') rest))"

definition filterHandler ::
  "(string \<Rightarrow> string) \<Rightarrow> (string \<times> gval) list \<Rightarrow> panic + (string \<times> gval list)" where
  "filterHandler opSQL filter' =
    (if length filter' = 0 then Inr ([], [])
     else
       (case filterLoop opSQL (([], 0), ([], [])) filter' of
          Inl e \<Rightarrow> Inl e
        | Inr (sql, filterArgs) \<Rightarrow>
            (let filterSql = TrimSpace sql in
             if filterSql \<noteq> [] then
               (if HasPrefix filterSql ''OR'' then
                  (case sliceFrom filterSql 3 of
                     Inl e \<Rightarrow> Inl e | Inr s \<Rightarrow> Inr (s, filterArgs))
                else if HasPrefix filterSql ''AND'' then
                  (case sliceFrom filterSql 4 of
                     Inl e \<Rightarrow> Inl e | Inr s \<Rightarrow> Inr (s, filterArgs))
                else Inl (Panic (''Generate sql error. '' @ filterSql)))
             else Inr (filterSql, filterArgs))))"

subsection \<open>The accumulator\<close>

text \<open>
  The builder methods change the receiver in place. The model returns the receiver as
  the call leaves it, with the panic that ended the call, if one did.
\<close>

definition FilterToSQL :: "QuerySetImpl \<Rightarrow> (string \<times> gval) list \<Rightarrow> QuerySetImpl \<times> panic option" where
  "FilterToSQL p filter' =
    (case filterHandler (Operator p) filter' of
       Inl e \<Rightarrow> (p, Some e)
     | Inr (filterSQL, filterArgs) \<Rightarrow>
         (if filterSQL = [] then (p, None)
          else (p\<lparr>filterCondition := filterCondition p @ [\<lparr>SQL = filterSQL, Args = filterArgs\<rparr>]\<rparr>,
                None)))"

definition ExcludeToSQL :: "QuerySetImpl \<Rightarrow> (string \<times> gval) list \<Rightarrow> QuerySetImpl \<times> panic option" where
  "ExcludeToSQL p exclude =
    (case filterHandler (Operator p) exclude of
       Inl e \<Rightarrow> (p, Some e)
     | Inr (excludeSQL, excludeArgs) \<Rightarrow>
         (if excludeSQL = [] then (p, None)
          else (p\<lparr>excludeCondition := excludeCondition p @ [\<lparr>SQL = excludeSQL, Args = excludeArgs\<rparr>]\<rparr>,
                None)))"

definition WhereToSQL :: "QuerySetImpl \<Rightarrow> string \<Rightarrow> gval list \<Rightarrow> QuerySetImpl" where
  "WhereToSQL p cond args = p\<lparr>whereCondition := \<lparr>SQL = cond, Args = args\<rparr>\<rparr>"

definition GetQuerySet :: "QuerySetImpl \<Rightarrow> panic + (string \<times> gval list)" where
  "GetQuerySet p =
    (if SQL (whereCondition p) \<noteq> [] then
       Inr ('' WHERE '' @ SQL (whereCondition p), Args (whereCondition p))
     else if length (filterCondition p) = 0 \<and> length (excludeCondition p) = 0 then Inr ([], [])
     else
       (let inc = foldl (\<lambda>acc v. (fst acc @ ''('' @ SQL v @ '') AND '', snd acc @ Args v))
                    ([], []) (filterCondition p);
            exc = foldl (\<lambda>acc v. (fst acc @ ''NOT ('' @ SQL v @ '') AND '', snd acc @ Args v))
                    inc (excludeCondition p)
        in case sliceTo (fst exc) (int (length (fst exc)) - 4) of
             Inl e \<Rightarrow> Inl e
           | Inr s \<Rightarrow> Inr ('' WHERE '' @ TrimSpace s, snd exc)))"

text \<open>
  A sequence of \<^verbatim>\<open>FilterToSQL\<close> and \<^verbatim>\<open>ExcludeToSQL\<close> calls on one
  receiver; a panic ends the sequence.
\<close>

datatype call = CallFilter "(string \<times> gval) list" | CallExclude "(string \<times> gval) list"

fun applyCall :: "QuerySetImpl \<Rightarrow> call \<Rightarrow> QuerySetImpl \<times> panic option" where
  "applyCall p (CallFilter filter') = FilterToSQL p filter'"
| "applyCall p (CallExclude exclude) = ExcludeToSQL p exclude"

fun applyCalls :: "QuerySetImpl \<Rightarrow> call list \<Rightarrow> QuerySetImpl \<times> panic option" where
  "applyCalls p [] = (p, None)"
| "applyCalls p (c # cs) =
     (case applyCall p c of
        (p', Some e) \<Rightarrow> (p', Some e)
      | (p', None) \<Rightarrow> applyCalls p' cs)"

subsection \<open>The clause builders\<close>

definition GetOrderBySQL :: "QuerySetImpl \<Rightarrow> string" where
  "GetOrderBySQL p =
    (if HasPrefix (orderBySQL p) '','' then '' ORDER BY'' @ drop 1 (orderBySQL p) else [])"

text \<open>
  The loop of \<^verbatim>\<open>OrderByToSQL\<close>: \<^verbatim>\<open>asc\<close> is set to true once, before the
  loop, and is part of the loop's state with \<^verbatim>\<open>p.orderBySQL\<close>.
  \<^verbatim>\<open>by[1:]\<close> is in range, since \<^verbatim>\<open>by\<close> starts with \<^verbatim>\<open>"-"\<close> there.
\<close>

fun orderByLoop :: "bool \<times> string \<Rightarrow> string list \<Rightarrow> bool \<times> string" where
  "orderByLoop (asc, sql) [] = (asc, sql)"
| "orderByLoop (asc, sql) (by # rest) =
     (let sql1 = sql @ '','';
          by1 = TrimSpace by;
          by2 = (if HasPrefix by1 ''-'' then drop 1 by1 else by1);
          asc2 = (if HasPrefix by1 ''-'' then False else asc)
      in orderByLoop
           (asc2, if asc2 then sql1 @ '' `'' @ by2 @ ''` ASC'' else sql1 @ '' `'' @ by2 @ ''` DESC'')
           rest)"

definition OrderByToSQL :: "QuerySetImpl \<Rightarrow> string list \<Rightarrow> QuerySetImpl" where
  "OrderByToSQL p orderBy =
    (if length orderBy \<le> 0 then p
     else
       (let sql = snd (orderByLoop (True, orderBySQL p) orderBy) in
        p\<lparr>orderBySQL := (if HasSuffix sql '','' then take (length sql - 1) sql else sql)\<rparr>))"

definition SelectToSQL :: "QuerySetImpl \<Rightarrow> string list \<Rightarrow> QuerySetImpl" where
  "SelectToSQL p columns = p\<lparr>selectColumn := Join columns '',''\<rparr>"

definition GetSelectSQL :: "QuerySetImpl \<Rightarrow> string" where
  "GetSelectSQL p = (if selectColumn p = [] then ''*'' else selectColumn p)"

definition GroupByToSQL :: "QuerySetImpl \<Rightarrow> string list \<Rightarrow> QuerySetImpl" where
  "GroupByToSQL p groupBy = p\<lparr>groupSQL := ''`'' @ Join groupBy ''`,`'' @ ''`''\<rparr>"

definition GetGroupBySQL :: "QuerySetImpl \<Rightarrow> string" where
  "GetGroupBySQL p = (if groupSQL p \<noteq> [] then '' GROUP BY '' @ groupSQL p else [])"

subsection \<open>Operator and value that do not fit\<close>

text \<open>
  The pairs \<^verbatim>\<open>filterHandler\<close> refuses for the shape of the value: a scalar
  under \<^verbatim>\<open>in\<close> or \<^verbatim>\<open>between\<close>; a slice or an array that is empty, whose
  element kind is one the loop rejects, or whose operator is none of the six the
  collection branch knows.
\<close>

definition incompatible :: "string \<Rightarrow> gval \<Rightarrow> bool" where
  "incompatible operator v \<longleftrightarrow>
     scalarKind (Kind v) \<and> (operator = ''in'' \<or> operator = ''between'')
     \<or> (Kind v = Slice \<or> Kind v = Array)
       \<and> (Len v = 0 \<or> unsupportedSliceKind (ElemKind v)
          \<or> operator \<notin> {''exact'', ''exclude'', ''contains'', ''icontains'', ''in'', ''between''})"

subsection \<open>Arguments and shapes of values\<close>

text \<open>
  The arguments a pair contributes when it compiles: the value itself when it is a
  scalar, its elements when it is a slice or an array.
\<close>

definition valueArgs :: "gval \<Rightarrow> gval list" where
  "valueArgs v = (if scalarKind (Kind v) then [v] else Elems v)"

text \<open>
  Two values have the same shape when \<^verbatim>\<open>reflect\<close> reports the same kind, the
  same element kind and the same length for them: they differ in content only.
\<close>

definition sameShape :: "gval \<Rightarrow> gval \<Rightarrow> bool" where
  "sameShape v w \<longleftrightarrow> Kind v = Kind w \<and> ElemKind v = ElemKind w \<and> Len v = Len w"

section \<open>Facts about the library functions\<close>

lemma foldl_fragments:
  "foldl (\<lambda>acc v. (fst acc @ f v, snd acc @ g v)) (s, a) xs
     = (s @ concat (map f xs), a @ concat (map g xs))"
  by (induction xs arbitrary: s a) simp_all

lemma concat_map_sep:
  "xs \<noteq> [] \<Longrightarrow> concat (map (\<lambda>x. x @ sep) xs) = Join xs sep @ sep"
  by (induction xs sep rule: Join.induct) simp_all

lemma hd_Join:
  "xs \<noteq> [] \<Longrightarrow> hd xs \<noteq> [] \<Longrightarrow> hd (Join xs sep) = hd (hd xs)"
  by (induction xs sep rule: Join.induct) simp_all

lemma Join_nonempty:
  "xs \<noteq> [] \<Longrightarrow> last xs \<noteq> [] \<Longrightarrow> Join xs sep \<noteq> []"
  by (induction xs sep rule: Join.induct) simp_all

lemma last_Join:
  "xs \<noteq> [] \<Longrightarrow> last xs \<noteq> [] \<Longrightarrow> last (Join xs sep) = last (last xs)"
  by (induction xs sep rule: Join.induct) (simp_all add: Join_nonempty)

lemma sliceTo_int:
  "sliceTo s (int n) =
     (if n \<le> length s then Inr (take n s)
      else Inl (Panic ''runtime error: slice bounds out of range''))"
  by (simp add: sliceTo_def)

text \<open>No white space starts with \<open>(\<close> or \<open>N\<close>, and none ends with \<open>)\<close>.\<close>

lemma runeWidth_open:
  "runeWidth spaceRunes (CHR ''('' # cs) = 0"
  by (simp add: runeWidth_def spaceRunes_def)

lemma runeWidth_N:
  "runeWidth spaceRunes (CHR ''N'' # cs) = 0"
  by (simp add: runeWidth_def spaceRunes_def)

lemma runeWidth_rev_close:
  "runeWidth (map rev spaceRunes) (CHR '')'' # cs) = 0"
  by (simp add: runeWidth_def spaceRunes_def)

lemma runeWidth_rev_blank:
  "runeWidth (map rev spaceRunes) (CHR '' '' # cs) = 1"
  by (simp add: runeWidth_def spaceRunes_def)

lemma trimRunes_rev_clause:
  "trimRunes (map rev spaceRunes) 0 (CHR '' '' # CHR '')'' # u) = CHR '')'' # u"
  by (simp add: runeWidth_rev_blank runeWidth_rev_close)

lemma TrimSpace_clause:
  assumes "s \<noteq> []" and "hd s = CHR ''('' \<or> hd s = CHR ''N''" and "last s = CHR '')''"
  shows "TrimSpace (s @ '' '') = s"
proof -
  obtain c t where s: "s = c # t"
    using assms(1) by (cases s) auto
  from assms(2) s have "c = CHR ''('' \<or> c = CHR ''N''"
    by simp
  then have "runeWidth spaceRunes (c # (t @ '' '')) = 0"
    by (auto simp add: runeWidth_open runeWidth_N)
  then have left: "trimRunes spaceRunes 0 (s @ '' '') = s @ '' ''"
    using s by simp
  obtain u where u: "rev s = CHR '')'' # u"
    using assms(1,3) by (cases s rule: rev_cases) auto
  have "trimRunes (map rev spaceRunes) 0 (rev (s @ '' '')) = rev s"
    using trimRunes_rev_clause [of u] u by simp
  then show ?thesis
    by (simp add: TrimSpace_def left)
qed

lemma Join_clause_shape:
  assumes "parts \<noteq> []"
    and "\<forall>x \<in> set parts. x \<noteq> [] \<and> (hd x = CHR ''('' \<or> hd x = CHR ''N'') \<and> last x = CHR '')''"
  shows "TrimSpace (Join parts sep @ '' '') = Join parts sep"
proof -
  have h: "hd parts \<in> set parts" and l: "last parts \<in> set parts"
    using assms(1) by simp_all
  have "Join parts sep \<noteq> []"
    using assms l by (simp add: Join_nonempty)
  moreover have "hd (Join parts sep) = CHR ''('' \<or> hd (Join parts sep) = CHR ''N''"
    using assms h by (simp add: hd_Join)
  moreover have "last (Join parts sep) = CHR '')''"
    using assms l by (simp add: last_Join)
  ultimately show ?thesis
    by (rule TrimSpace_clause)
qed

text \<open>
  \<^verbatim>\<open>strings.Split\<close> gives at least one part, and the parts hold no byte that
  the string does not hold.
\<close>

lemma splitFrom_nonempty: "splitFrom sep k acc s \<noteq> []"
  by (induction sep k acc s rule: splitFrom.induct) simp_all

lemma splitFrom_chars:
  "x \<in> set (splitFrom sep k acc s) \<Longrightarrow> set x \<subseteq> set acc \<union> set s"
proof (induction sep k acc s arbitrary: x rule: splitFrom.induct)
  case (1 sep k acc c cs)
  then show ?case by auto
next
  case (2 sep acc c cs)
  then show ?case by (auto split: if_splits)
next
  case (3 sep k acc)
  then show ?case by auto
qed

text \<open>
  What \<open>trimRunes\<close> removes is a sequence of runes of the list: the result is a suffix
  of the string, and a byte that is in no rune is never removed.
\<close>

lemma trimRunes_skip:
  "k \<le> length s \<Longrightarrow> trimRunes runes k s = trimRunes runes 0 (drop k s)"
proof (induction k arbitrary: s)
  case 0
  show ?case by simp
next
  case (Suc k)
  then obtain c cs where "s = c # cs"
    by (cases s) auto
  with Suc show ?case by simp
qed

lemma runeWidth_Suc:
  assumes "runeWidth runes s = Suc k"
  obtains r where "r \<in> set runes" and "prefix r s" and "length r = Suc k"
proof -
  from assms obtain r rs where f: "filter (\<lambda>r. prefix r s) runes = r # rs" and "length r = Suc k"
    by (auto simp add: runeWidth_def split: list.splits)
  from f have "r \<in> set (filter (\<lambda>r. prefix r s) runes)"
    by simp
  then have "r \<in> set runes" and "prefix r s"
    by simp_all
  with \<open>length r = Suc k\<close> that show ?thesis
    by blast
qed

lemma trimRunes_decompose:
  "\<exists>rs. set rs \<subseteq> set runes \<and> s = concat rs @ trimRunes runes 0 s"
proof (induction "length s" arbitrary: s rule: less_induct)
  case less
  show ?case
  proof (cases s)
    case Nil
    then have "set [] \<subseteq> set runes \<and> s = concat [] @ trimRunes runes 0 s"
      by simp
    then show ?thesis by blast
  next
    case (Cons c cs)
    show ?thesis
    proof (cases "runeWidth runes (c # cs)")
      case 0
      with Cons have "set [] \<subseteq> set runes \<and> s = concat [] @ trimRunes runes 0 s"
        by simp
      then show ?thesis by blast
    next
      case (Suc k)
      then obtain r where r: "r \<in> set runes" "prefix r (c # cs)" "length r = Suc k"
        by (rule runeWidth_Suc)
      then obtain rest where rest: "c # cs = r @ rest"
        by (auto simp add: prefix_def)
      with r(3) have k: "k \<le> length cs" and drop: "drop k cs = rest"
        by (cases r; simp)+
      have "trimRunes runes 0 s = trimRunes runes k cs"
        using Cons Suc by simp
      also have "\<dots> = trimRunes runes 0 rest"
        using trimRunes_skip [OF k] drop by simp
      finally have t: "trimRunes runes 0 s = trimRunes runes 0 rest" .
      have "length rest < length s"
        using Cons rest r(3) by (metis length_append less_add_same_cancel2 zero_less_Suc)
      then obtain rs where rs: "set rs \<subseteq> set runes" "rest = concat rs @ trimRunes runes 0 rest"
        using less by blast
      have "set (r # rs) \<subseteq> set runes \<and> s = concat (r # rs) @ trimRunes runes 0 s"
        using r(1) rs Cons rest t by simp
      then show ?thesis by blast
    qed
  qed
qed

lemma count_list_Repeat:
  "count_list (Repeat s n) c = n * count_list s c"
  by (induction n) (simp_all add: Repeat_def)

lemma count_list_concat_none:
  "\<forall>r \<in> set rs. c \<notin> set r \<Longrightarrow> count_list (concat rs) c = 0"
  by (induction rs) simp_all

lemma trimRunes_count:
  assumes "\<forall>r \<in> set runes. c \<notin> set r"
  shows "count_list (trimRunes runes 0 s) c = count_list s c"
proof -
  obtain rs where rs: "set rs \<subseteq> set runes" and s: "s = concat rs @ trimRunes runes 0 s"
    using trimRunes_decompose by blast
  have "count_list (concat rs) c = 0"
    using assms rs by (intro count_list_concat_none) blast
  then have "count_list (concat rs @ trimRunes runes 0 s) c = count_list (trimRunes runes 0 s) c"
    by simp
  with s show ?thesis by simp
qed

lemma trimRunes_suffix:
  "suffix (trimRunes runes 0 s) s"
proof -
  obtain rs where "s = concat rs @ trimRunes runes 0 s"
    using trimRunes_decompose by blast
  then show ?thesis
    by (metis suffixI)
qed

lemma spaceRunes_no_placeholder:
  "\<forall>r \<in> set spaceRunes. CHR ''?'' \<notin> set r"
  by (simp add: spaceRunes_def)

lemma TrimSpace_count:
  "count_list (TrimSpace s) (CHR ''?'') = count_list s (CHR ''?'')"
proof -
  have "\<forall>r \<in> set (map rev spaceRunes). CHR ''?'' \<notin> set r"
    using spaceRunes_no_placeholder by simp
  then show ?thesis
    by (simp add: TrimSpace_def trimRunes_count spaceRunes_no_placeholder)
qed

lemma TrimSpace_prefix:
  assumes "runeWidth spaceRunes s = 0"
  shows "prefix (TrimSpace s) s"
proof -
  have "trimRunes spaceRunes 0 s = s"
    using assms by (cases s) simp_all
  then have "TrimSpace s = rev (trimRunes (map rev spaceRunes) 0 (rev s))"
    by (simp add: TrimSpace_def)
  moreover have "suffix (trimRunes (map rev spaceRunes) 0 (rev s)) (rev s)"
    by (rule trimRunes_suffix)
  ultimately show ?thesis
    by (simp add: suffix_to_prefix)
qed

lemma runeWidth_A:
  "runeWidth spaceRunes (CHR ''A'' # cs) = 0"
  by (simp add: runeWidth_def spaceRunes_def)

lemma runeWidth_O:
  "runeWidth spaceRunes (CHR ''O'' # cs) = 0"
  by (simp add: runeWidth_def spaceRunes_def)

section \<open>Facts about the loop of \<^verbatim>\<open>filterHandler\<close>\<close>

lemma OperatorSQL_no_placeholder:
  "count_list (OperatorSQL operator) (CHR ''?'') = 0"
  by (simp add: OperatorSQL_def operators_def)

lemma ANDOR_no_placeholder:
  "flag \<le> 1 \<Longrightarrow> count_list (ANDOR ! flag) (CHR ''?'') = 0"
  by (cases flag) (simp_all add: ANDOR_def)

lemma BLANKNOT_no_placeholder:
  "flag \<le> 1 \<Longrightarrow> count_list (BLANKNOT ! flag) (CHR ''?'') = 0"
  by (cases flag) (simp_all add: BLANKNOT_def)

lemma parseLookups_flag:
  assumes "parseLookups prev k = Inr (fieldName, operator, flag)" and "snd prev \<le> 1"
  shows "flag \<le> 1"
  using assms by (auto simp add: parseLookups_def Let_def split: if_splits)

lemma parseLookups_fieldName:
  assumes "parseLookups prev k = Inr (fieldName, operator, flag)"
  shows "set fieldName \<subseteq> set k"
proof -
  have "fieldName = Split k ''__'' ! 0"
    using assms by (auto simp add: parseLookups_def Let_def split: if_splits)
  moreover have "Split k ''__'' ! 0 \<in> set (Split k ''__'')"
    using splitFrom_nonempty [of "''__''" 0 "[]" k] by (simp add: Split_def)
  ultimately show ?thesis
    using splitFrom_chars [of fieldName "''__''" 0 "[]" k] by (simp add: Split_def)
qed

lemma compileValue_args:
  assumes "compileValue opSQL k fieldName operator flag v (sql, args) = Inr (sql', args')"
  shows "args' = args @ valueArgs v"
  using assms
  by (auto simp add: compileValue_def valueArgs_def Let_def split: if_splits)

lemma compileValue_shape:
  assumes "compileValue opSQL k fieldName operator flag v (sql, args) = Inr (sql', args')"
  shows "\<exists>rest. sql' = sql @ ANDOR ! flag @ '' '' @ rest"
  using assms
  by (auto simp add: compileValue_def Let_def split: if_splits)

lemma compileValue_count:
  assumes "compileValue OperatorSQL k fieldName operator flag v (sql, args) = Inr (sql', args')"
    and "flag \<le> 1"
    and "CHR ''?'' \<notin> set fieldName"
    and "operator = ''between'' \<longrightarrow> Kind v = Slice \<or> Kind v = Array \<longrightarrow> Len v = 2"
  shows "count_list sql' (CHR ''?'') + length args = count_list sql (CHR ''?'') + length args'"
proof -
  have f: "count_list fieldName (CHR ''?'') = 0"
    using assms(3) by (simp add: count_list_0_iff)
  note zero = f OperatorSQL_no_placeholder ANDOR_no_placeholder [OF assms(2)]
    BLANKNOT_no_placeholder [OF assms(2)] count_list_Repeat
  show ?thesis
  proof (cases "scalarKind (Kind v)")
    case True
    with assms(1) show ?thesis
      by (auto simp add: compileValue_def Let_def zero split: if_splits)
  next
    case False
    show ?thesis
    proof (cases "Len v")
      case 0
      with assms(1) False show ?thesis
        by (simp add: compileValue_def Let_def split: if_splits)
    next
      case (Suc n)
      then have len: "length (Elems v) = Suc n"
        by (simp add: Len_def)
      show ?thesis
      proof (cases "operator = ''between''")
        case True
        with assms(1,4) False Suc len show ?thesis
          by (auto simp add: compileValue_def Let_def zero split: if_splits)
      next
        case other: False
        with assms(1) False Suc len show ?thesis
          by (auto simp add: compileValue_def Let_def zero split: if_splits)
      qed
    qed
  qed
qed

lemma filterLoop_count:
  assumes "filterLoop OperatorSQL (prev, (sql, args)) batch = Inr (sql', args')"
    and "snd prev \<le> 1"
    and "\<forall>(k, v) \<in> set batch. CHR ''?'' \<notin> set k"
    and "\<forall>(k, v) \<in> set batch. \<forall>prev fieldName flag.
           parseLookups prev k = Inr (fieldName, ''between'', flag) \<longrightarrow>
           Kind v = Slice \<or> Kind v = Array \<longrightarrow> Len v = 2"
  shows "count_list sql' (CHR ''?'') + length args = count_list sql (CHR ''?'') + length args'"
  using assms
proof (induction batch arbitrary: prev sql args)
  case Nil
  then show ?case by simp
next
  case (Cons pair rest)
  obtain k v where pair: "pair = (k, v)"
    by (cases pair)
  from Cons.prems(1) pair obtain fieldName operator flag where
    parsed: "parseLookups prev k = Inr (fieldName, operator, flag)"
    by (auto split: sum.splits)
  with Cons.prems(1) pair obtain sql1 args1 where
    compiled: "compileValue OperatorSQL k fieldName operator flag v (sql, args) = Inr (sql1, args1)"
    and loop: "filterLoop OperatorSQL ((operator, flag), (sql1, args1)) rest = Inr (sql', args')"
    by (auto split: sum.splits)
  have flag: "flag \<le> 1"
    using parsed Cons.prems(2) by (rule parseLookups_flag)
  have "CHR ''?'' \<notin> set k"
    using Cons.prems(3) pair by simp
  then have field: "CHR ''?'' \<notin> set fieldName"
    using parseLookups_fieldName [OF parsed] by blast
  have "\<forall>prev fieldName flag.
           parseLookups prev k = Inr (fieldName, ''between'', flag) \<longrightarrow>
           Kind v = Slice \<or> Kind v = Array \<longrightarrow> Len v = 2"
    using Cons.prems(4) pair by simp
  with parsed have arity: "operator = ''between'' \<longrightarrow> Kind v = Slice \<or> Kind v = Array \<longrightarrow> Len v = 2"
    by blast
  have step: "count_list sql1 (CHR ''?'') + length args = count_list sql (CHR ''?'') + length args1"
    using compiled flag field arity by (rule compileValue_count)
  have "count_list sql' (CHR ''?'') + length args1 = count_list sql1 (CHR ''?'') + length args'"
    using Cons.IH [OF loop] flag Cons.prems(3,4) by simp
  with step show ?case by simp
qed

lemma filterLoop_args:
  assumes "filterLoop opSQL (prev, (sql, args)) batch = Inr (sql', args')"
  shows "args' = args @ concat (map (\<lambda>(k, v). valueArgs v) batch)"
  using assms
proof (induction batch arbitrary: prev sql args)
  case Nil
  then show ?case by simp
next
  case (Cons pair rest)
  obtain k v where pair: "pair = (k, v)"
    by (cases pair)
  from Cons.prems pair obtain fieldName operator flag sql1 args1 where
    compiled: "compileValue opSQL k fieldName operator flag v (sql, args) = Inr (sql1, args1)"
    and loop: "filterLoop opSQL ((operator, flag), (sql1, args1)) rest = Inr (sql', args')"
    by (auto split: sum.splits)
  from compiled have "args1 = args @ valueArgs v"
    by (rule compileValue_args)
  with Cons.IH [OF loop] pair show ?case by simp
qed

lemma filterLoop_prefix:
  assumes "filterLoop opSQL (prev, (sql, args)) batch = Inr (sql', args')"
  shows "prefix sql sql'"
  using assms
proof (induction batch arbitrary: prev sql args)
  case Nil
  then show ?case by simp
next
  case (Cons pair rest)
  obtain k v where pair: "pair = (k, v)"
    by (cases pair)
  from Cons.prems pair obtain fieldName operator flag sql1 args1 where
    compiled: "compileValue opSQL k fieldName operator flag v (sql, args) = Inr (sql1, args1)"
    and loop: "filterLoop opSQL ((operator, flag), (sql1, args1)) rest = Inr (sql', args')"
    by (auto split: sum.splits)
  from compiled have "prefix sql sql1"
    using compileValue_shape by fastforce
  with Cons.IH [OF loop] show ?case
    by (rule prefix_order.trans [rotated])
qed

lemma filterLoop_starts_with_combinator:
  assumes "filterLoop opSQL (([], 0), ([], [])) batch = Inr (sql, args)" and "batch \<noteq> []"
  shows "\<exists>rest. sql = ''AND '' @ rest \<or> sql = ''OR '' @ rest"
proof -
  from assms(2) obtain k v more where batch: "batch = (k, v) # more"
    by (cases batch) auto
  from assms(1) batch obtain fieldName operator flag sql1 args1 where
    parsed: "parseLookups ([], 0) k = Inr (fieldName, operator, flag)"
    and compiled: "compileValue opSQL k fieldName operator flag v ([], []) = Inr (sql1, args1)"
    and loop: "filterLoop opSQL ((operator, flag), (sql1, args1)) more = Inr (sql, args)"
    by (auto split: sum.splits)
  have "flag \<le> 1"
    using parsed by (rule parseLookups_flag) simp
  then have flag: "flag = 0 \<or> flag = 1"
    by auto
  from compiled obtain r where "sql1 = ANDOR ! flag @ '' '' @ r"
    using compileValue_shape by fastforce
  moreover from loop have "prefix sql1 sql"
    by (rule filterLoop_prefix)
  ultimately obtain r' where "sql = ANDOR ! flag @ '' '' @ r'"
    by (auto simp add: prefix_def)
  with flag show ?thesis
    by (auto simp add: ANDOR_def)
qed

lemma drop_combinator_count:
  assumes "prefix t s" and "s = p @ rest" and "length p \<le> length t"
    and "count_list p c = 0"
  shows "count_list (drop (length p) t) c = count_list t c"
proof -
  from assms(1,2,3) have "take (length p) t = p"
    by (metis append_eq_conv_conj prefix_def take_append take_all_iff
        append_take_drop_id append.assoc)
  then have "count_list t c = count_list p c + count_list (drop (length p) t) c"
    by (metis append_take_drop_id count_list_append)
  with assms(4) show ?thesis by simp
qed

lemma compileValue_text:
  assumes "sameShape v w"
  shows "map_sum id fst (compileValue opSQL k fieldName operator flag v (sql, args1))
       = map_sum id fst (compileValue opSQL k fieldName operator flag w (sql, args2))"
  using assms by (simp add: sameShape_def compileValue_def Let_def)

lemma filterLoop_text:
  assumes "list_all2 (\<lambda>(k, v) (k', w). k = k' \<and> sameShape v w) batch1 batch2"
  shows "map_sum id fst (filterLoop opSQL (prev, (sql, args1)) batch1)
       = map_sum id fst (filterLoop opSQL (prev, (sql, args2)) batch2)"
  using assms
proof (induction batch1 batch2 arbitrary: prev sql args1 args2 rule: list_all2_induct)
  case Nil
  show ?case by simp
next
  case (Cons pair1 rest1 pair2 rest2)
  obtain k v w where pairs: "pair1 = (k, v)" "pair2 = (k, w)" and shape: "sameShape v w"
    using Cons.hyps(1) by (cases pair1; cases pair2) auto
  show ?case
  proof (cases "parseLookups prev k")
    case (Inl e)
    then show ?thesis by (simp add: pairs)
  next
    case (Inr parsed)
    obtain fieldName operator flag where parsed: "parsed = (fieldName, operator, flag)"
      by (cases parsed)
    have same: "map_sum id fst (compileValue opSQL k fieldName operator flag v (sql, args1))
       = map_sum id fst (compileValue opSQL k fieldName operator flag w (sql, args2))"
      using shape by (rule compileValue_text)
    show ?thesis
    proof (cases "compileValue opSQL k fieldName operator flag v (sql, args1)")
      case failed: (Inl e)
      with same have "compileValue opSQL k fieldName operator flag w (sql, args2) = Inl e"
        by (cases "compileValue opSQL k fieldName operator flag w (sql, args2)") simp_all
      with failed show ?thesis
        by (simp add: pairs Inr parsed)
    next
      case compiled: (Inr acc1)
      obtain sql1 a1 where acc1: "acc1 = (sql1, a1)"
        by (cases acc1)
      with same compiled obtain a2 where
        "compileValue opSQL k fieldName operator flag w (sql, args2) = Inr (sql1, a2)"
        by (cases "compileValue opSQL k fieldName operator flag w (sql, args2)") auto
      with compiled acc1 Cons.IH [of "(operator, flag)" sql1 a1 a2] show ?thesis
        by (simp add: pairs Inr parsed)
    qed
  qed
qed

section \<open>The operator translator and the filter compiler\<close>

text \<open>
  Claim C1: the number of \<open>?\<close> placeholders of a compiled fragment equals the number
  of its arguments, for \<^verbatim>\<open>between\<close> too, whatever collection it accepts.
  The \<^verbatim>\<open>between\<close> branch writes two placeholders and appends every element:
  a collection of three elements compiles, to a fragment of two placeholders with
  three arguments.
\<close>

theorem filterHandler_between_arity:
  "filterHandler OperatorSQL
     [(''price__between'',
       SliceVal IntKind [Val IntKind ''10'', Val IntKind ''20'', Val IntKind ''30''])]
     = Inr (''price  BETWEEN ? AND ?'',
            [Val IntKind ''10'', Val IntKind ''20'', Val IntKind ''30''])
   \<and> count_list ''price  BETWEEN ? AND ?'' (CHR ''?'') = 2"
  by code_simp

text \<open>
  The rest of the claim holds. When no key holds a \<open>?\<close> and every collection under
  \<^verbatim>\<open>between\<close> has two elements, a batch that compiles has as many
  placeholders as arguments; and the arguments of any batch that compiles are those of
  its pairs, in the order of the pairs.
\<close>

lemma filterHandler_placeholders:
  assumes "filterHandler OperatorSQL batch = Inr (sql, args)"
    and "\<forall>(k, v) \<in> set batch. CHR ''?'' \<notin> set k"
    and "\<forall>(k, v) \<in> set batch. \<forall>prev fieldName flag.
           parseLookups prev k = Inr (fieldName, ''between'', flag) \<longrightarrow>
           Kind v = Slice \<or> Kind v = Array \<longrightarrow> Len v = 2"
  shows "count_list sql (CHR ''?'') = length args"
proof (cases "batch = []")
  case True
  with assms(1) show ?thesis
    by (simp add: filterHandler_def)
next
  case False
  with assms(1) obtain sql0 args0 where
    loop: "filterLoop OperatorSQL (([], 0), ([], [])) batch = Inr (sql0, args0)"
    by (auto simp add: filterHandler_def split: sum.splits)
  define t where "t = TrimSpace sql0"
  have count0: "count_list sql0 (CHR ''?'') = length args0"
    using filterLoop_count [OF loop _ assms(2,3)] by simp
  have count_t: "count_list t (CHR ''?'') = length args0"
    by (simp add: t_def TrimSpace_count count0)
  obtain rest where shape: "sql0 = ''AND '' @ rest \<or> sql0 = ''OR '' @ rest"
    using filterLoop_starts_with_combinator [OF loop False] by blast
  then have "runeWidth spaceRunes sql0 = 0"
    by (auto simp add: runeWidth_A runeWidth_O)
  then have pre: "prefix t sql0"
    unfolding t_def by (rule TrimSpace_prefix)
  have nz: "(length batch = 0) = False"
    using False by simp
  have result: "(if t \<noteq> [] then
            (if HasPrefix t ''OR'' then
               (case sliceFrom t 3 of Inl e \<Rightarrow> Inl e | Inr s \<Rightarrow> Inr (s, args0))
             else if HasPrefix t ''AND'' then
               (case sliceFrom t 4 of Inl e \<Rightarrow> Inl e | Inr s \<Rightarrow> Inr (s, args0))
             else Inl (Panic (''Generate sql error. '' @ t)))
          else Inr (t, args0)) = Inr (sql, args)"
    using assms(1) unfolding filterHandler_def Let_def t_def loop
    by (simp only: nz if_False sum.case prod.case)
  show ?thesis
  proof (cases "t = []")
    case True
    with result count_t show ?thesis by auto
  next
    case nonempty: False
    show ?thesis
    proof (cases "HasPrefix t ''OR''")
      case True
      with result nonempty have cut: "sliceFrom t 3 = Inr sql" and args: "args = args0"
        by (auto split: sum.splits)
      from cut have len: "3 \<le> length t" and sql: "sql = drop 3 t"
        by (auto simp add: sliceFrom_def split: if_splits)
      from True pre shape have "sql0 = ''OR '' @ rest"
        by (auto simp add: HasPrefix_def prefix_def)
      from drop_combinator_count [OF pre this, of "CHR ''?''"] len
      have "count_list (drop 3 t) (CHR ''?'') = count_list t (CHR ''?'')"
        by (simp add: eval_nat_numeral)
      with sql args count_t show ?thesis by simp
    next
      case notOR: False
      show ?thesis
      proof (cases "HasPrefix t ''AND''")
        case True
        with result nonempty notOR have cut: "sliceFrom t 4 = Inr sql" and args: "args = args0"
          by (auto split: sum.splits)
        from cut have len: "4 \<le> length t" and sql: "sql = drop 4 t"
          by (auto simp add: sliceFrom_def split: if_splits)
        from True pre shape have "sql0 = ''AND '' @ rest"
          by (auto simp add: HasPrefix_def prefix_def)
        from drop_combinator_count [OF pre this, of "CHR ''?''"] len
        have "count_list (drop 4 t) (CHR ''?'') = count_list t (CHR ''?'')"
          by (simp add: eval_nat_numeral)
        with sql args count_t show ?thesis by simp
      next
        case False
        with result nonempty notOR show ?thesis by simp
      qed
    qed
  qed
qed

lemma filterHandler_args:
  assumes "filterHandler opSQL batch = Inr (sql, args)"
  shows "args = concat (map (\<lambda>(k, v). valueArgs v) batch)"
proof (cases "batch = []")
  case True
  with assms show ?thesis
    by (simp add: filterHandler_def)
next
  case False
  with assms obtain sql0 args0 where
    loop: "filterLoop opSQL (([], 0), ([], [])) batch = Inr (sql0, args0)"
    by (auto simp add: filterHandler_def split: sum.splits)
  with assms False have "args = args0"
    by (auto simp add: filterHandler_def Let_def split: sum.splits if_splits)
  with filterLoop_args [OF loop] show ?thesis by simp
qed

lemma filterHandler_placeholders_example:
  "\<exists>sql args.
     filterHandler OperatorSQL
       [(''age__gte'', Val IntKind ''18''),
        (''status__in__Q'', SliceVal String [Val String ''A'', Val String ''B'']),
        (''price__between'', SliceVal IntKind [Val IntKind ''10'', Val IntKind ''20''])]
       = Inr (sql, args)
     \<and> count_list sql (CHR ''?'') = length args \<and> length args = 5"
proof -
  let ?batch = "[(''age__gte'', Val IntKind ''18''),
        (''status__in__Q'', SliceVal String [Val String ''A'', Val String ''B'']),
        (''price__between'', SliceVal IntKind [Val IntKind ''10'', Val IntKind ''20''])]"
  have compiled: "filterHandler OperatorSQL ?batch
       = Inr (''`age`>=? OR status NOT IN (?,?) AND price  BETWEEN ? AND ?'',
              [Val IntKind ''18'', Val String ''A'', Val String ''B'',
               Val IntKind ''10'', Val IntKind ''20''])"
    by code_simp
  have keys: "\<forall>(k, v) \<in> set ?batch. CHR ''?'' \<notin> set k"
    by simp
  have arity: "\<forall>(k, v) \<in> set ?batch. \<forall>prev fieldName flag.
           parseLookups prev k = Inr (fieldName, ''between'', flag) \<longrightarrow>
           Kind v = Slice \<or> Kind v = Array \<longrightarrow> Len v = 2"
    by (simp add: parseLookups_def Split_def Len_def)
  from filterHandler_placeholders [OF compiled keys arity] compiled show ?thesis
    by simp
qed

text \<open>
  Claim C2: a lookup keyword outside the builtin table makes the translation fail,
  rather than give an empty operator that ends up in the fragment.
  \<^verbatim>\<open>OperatorSQL\<close> gives the empty string for \<^verbatim>\<open>foo\<close>, and the scalar
  branch of \<^verbatim>\<open>filterHandler\<close> writes it between the column and the placeholder.
\<close>

theorem OperatorSQL_unknown_keyword:
  "OperatorSQL ''foo'' = []
   \<and> filterHandler OperatorSQL [(''age__foo'', Val IntKind ''18'')]
       = Inr (''`age`?'', [Val IntKind ''18''])"
  by code_simp

text \<open>
  Every keyword outside the table translates to the empty string.
\<close>

lemma OperatorSQL_outside_table:
  assumes "kw \<notin> fst ` set operators"
  shows "OperatorSQL kw = []"
proof -
  have "map_of operators kw = None"
    using assms by (simp add: map_of_eq_None_iff)
  then show ?thesis
    by (simp add: OperatorSQL_def)
qed

text \<open>
  Claim C4: column identifiers are backtick-quoted in every fragment and in the select
  list, and values never appear in the text; a collection \<^verbatim>\<open>in\<close> filter over
  three elements yields \<^verbatim>\<open>`status` IN (?,?,?)\<close>.
  The collection branches write the field name bare (and with two blanks before
  \<^verbatim>\<open>IN\<close>, one for the empty \<^verbatim>\<open>BLANKNOT[0]\<close>), and
  \<^verbatim>\<open>SelectToSQL\<close> joins the columns as they come.
\<close>

theorem filterHandler_collection_unquoted:
  "filterHandler OperatorSQL
     [(''status__in'', SliceVal String [Val String ''A'', Val String ''B'', Val String ''C''])]
     = Inr (''status  IN (?,?,?)'', [Val String ''A'', Val String ''B'', Val String ''C''])
   \<and> GetSelectSQL (SelectToSQL (NewQuerySet OperatorSQL) [''id'', ''name'']) = ''id,name''"
  by code_simp

text \<open>
  The rest of the claim holds: the text of a fragment (and the message of a panic)
  depends on the keys and on the shapes of the values only, never on what the values
  hold.
\<close>

lemma filterHandler_text:
  assumes "list_all2 (\<lambda>(k, v) (k', w). k = k' \<and> sameShape v w) batch1 batch2"
  shows "map_sum id fst (filterHandler opSQL batch1) = map_sum id fst (filterHandler opSQL batch2)"
proof -
  have len: "length batch1 = length batch2"
    using assms by (rule list_all2_lengthD)
  have loop: "map_sum id fst (filterLoop opSQL (([], 0), ([], [])) batch1)
       = map_sum id fst (filterLoop opSQL (([], 0), ([], [])) batch2)"
    using assms by (rule filterLoop_text)
  show ?thesis
  proof (cases "filterLoop opSQL (([], 0), ([], [])) batch1")
    case (Inl e)
    with loop have "filterLoop opSQL (([], 0), ([], [])) batch2 = Inl e"
      by (cases "filterLoop opSQL (([], 0), ([], [])) batch2") simp_all
    with Inl len show ?thesis
      by (simp add: filterHandler_def)
  next
    case (Inr acc1)
    obtain sql a1 where acc1: "acc1 = (sql, a1)"
      by (cases acc1)
    with loop Inr obtain a2 where "filterLoop opSQL (([], 0), ([], [])) batch2 = Inr (sql, a2)"
      by (cases "filterLoop opSQL (([], 0), ([], [])) batch2") auto
    with Inr acc1 len show ?thesis
      by (simp add: filterHandler_def Let_def split: sum.splits)
  qed
qed

text \<open>
  Claim C5: the number of parts of the key fixes operator and combinator, and a key
  of more than three parts fails as malformed.
  No branch of the loop handles more than three parts: such a key compiles, with the
  operator and the flag of the pair before it (the empty operator and AND for the
  first pair).
\<close>

theorem filterHandler_four_part_key:
  "filterHandler OperatorSQL [(''a__b__c__d'', Val IntKind ''1'')]
     = Inr (''`a`?'', [Val IntKind ''1''])
   \<and> filterHandler OperatorSQL
         [(''x__gt__Q'', Val IntKind ''1''), (''a__b__c__d'', Val IntKind ''2'')]
       = Inr (''`x`>? OR `a`>?'', [Val IntKind ''1'', Val IntKind ''2''])"
  by code_simp

text \<open>
  The keys of one to three parts do what the claim says, whatever the pair before.
\<close>

lemma parseLookups_up_to_three_parts:
  "parseLookups prev ''age'' = Inr (''age'', ''exact'', 0)
   \<and> parseLookups prev ''age__gte'' = Inr (''age'', ''gte'', 0)
   \<and> parseLookups prev ''age__Q'' = Inr (''age'', ''exact'', 1)
   \<and> parseLookups prev ''age__gte__Q'' = Inr (''age'', ''gte'', 1)
   \<and> parseLookups prev ''age__gte__x'' = Inl (Panic ''FieldLookups [age__gte__x] is invalid.'')"
  by (simp add: parseLookups_def Split_def)

text \<open>
  No key of more than three parts is refused where the key is parsed.
\<close>

lemma parseLookups_more_than_three_parts:
  assumes "3 < length (Split k ''__'')"
  shows "parseLookups prev k = Inr (Split k ''__'' ! 0, fst prev, snd prev)"
  using assms by (simp add: parseLookups_def Let_def)

subsection \<open>Values that do not fit the operator\<close>

lemma compileValue_incompatible:
  assumes "incompatible operator v"
  shows "\<exists>m. compileValue opSQL fieldLookups fieldName operator flag v acc = Inl (Panic m)"
proof (cases "scalarKind (Kind v)")
  case True
  then have "\<not> (Kind v = Slice \<or> Kind v = Array)"
    by (auto simp add: scalarKind_def)
  with assms True have "operator = ''in'' \<or> operator = ''between''"
    by (simp add: incompatible_def)
  with True show ?thesis
    by (simp add: compileValue_def)
next
  case False
  with assms have coll: "Kind v = Slice \<or> Kind v = Array"
    and bad: "Len v = 0 \<or> unsupportedSliceKind (ElemKind v)
          \<or> operator \<notin> {''exact'', ''exclude'', ''contains'', ''icontains'', ''in'', ''between''}"
    by (simp_all add: incompatible_def)
  show ?thesis
  proof (cases "Len v = 0")
    case True
    with False coll show ?thesis
      by (simp add: compileValue_def)
  next
    case nonempty: False
    show ?thesis
    proof (cases "unsupportedSliceKind (ElemKind v)")
      case True
      with False coll nonempty show ?thesis
        by (simp add: compileValue_def)
    next
      case supported: False
      with bad nonempty have
        "operator \<notin> {''exact'', ''exclude'', ''contains'', ''icontains'', ''in'', ''between''}"
        by simp
      with False coll nonempty supported show ?thesis
        by (simp add: compileValue_def)
    qed
  qed
qed

text \<open>
  The loop panics when it holds such a pair, wherever the pair stands and whatever
  state the loop starts in: at the pair, or at an earlier one.
\<close>

lemma filterLoop_incompatible:
  assumes "(k, v) \<in> set batch"
    and "\<forall>prev fieldName operator flag.
           parseLookups prev k = Inr (fieldName, operator, flag) \<longrightarrow> incompatible operator v"
  shows "\<exists>m. filterLoop opSQL (prev, acc) batch = Inl (Panic m)"
  using assms(1)
proof (induction batch arbitrary: prev acc)
  case Nil
  then show ?case by simp
next
  case (Cons pair rest)
  obtain k' v' where pair: "pair = (k', v')"
    by (cases pair)
  show ?case
  proof (cases "parseLookups prev k'")
    case (Inl e)
    then show ?thesis
      by (cases e) (simp add: pair)
  next
    case (Inr parsed)
    obtain fieldName operator flag where parsed: "parsed = (fieldName, operator, flag)"
      by (cases parsed)
    show ?thesis
    proof (cases "compileValue opSQL k' fieldName operator flag v' acc")
      case (Inl e)
      then show ?thesis
        by (cases e) (simp add: pair Inr parsed)
    next
      case compiled: (Inr acc')
      have "(k, v) \<noteq> (k', v')"
      proof
        assume same: "(k, v) = (k', v')"
        have "parseLookups prev k = Inr (fieldName, operator, flag) \<longrightarrow> incompatible operator v"
          using assms(2) by blast
        with same Inr parsed have "incompatible operator v'"
          by simp
        then obtain m where
          "compileValue opSQL k' fieldName operator flag v' acc = Inl (Panic m)"
          using compileValue_incompatible by blast
        with compiled show False by simp
      qed
      with Cons.prems pair have "(k, v) \<in> set rest"
        by auto
      then obtain m where
        "filterLoop opSQL ((operator, flag), acc') rest = Inl (Panic m)"
        using Cons.IH by blast
      then show ?thesis
        by (simp add: pair Inr parsed compiled)
    qed
  qed
qed

lemma filterHandler_incompatible:
  assumes "(k, v) \<in> set batch"
    and "\<forall>prev fieldName operator flag.
           parseLookups prev k = Inr (fieldName, operator, flag) \<longrightarrow> incompatible operator v"
  shows "\<exists>m. filterHandler opSQL batch = Inl (Panic m)"
proof -
  obtain m where "filterLoop opSQL (([], 0), ([], [])) batch = Inl (Panic m)"
    using filterLoop_incompatible [OF assms] by blast
  moreover have "length batch \<noteq> 0"
    using assms(1) by auto
  ultimately show ?thesis
    by (simp add: filterHandler_def)
qed

text \<open>
  Claim C3, as the code has it: when a batch holds a pair whose value does not fit the
  operator its key resolves to (a scalar under \<^verbatim>\<open>in\<close> or \<^verbatim>\<open>between\<close>,
  an empty collection, a collection of a rejected element kind, a collection under an
  operator other than the six of the collection branch), \<^verbatim>\<open>FilterToSQL\<close> and
  \<^verbatim>\<open>ExcludeToSQL\<close> end in a panic, and the receiver is as it was before the
  call: no fragment of the batch has been added.
\<close>

theorem incompatible_pair_panics:
  assumes "(k, v) \<in> set batch"
    and "\<forall>prev fieldName operator flag.
           parseLookups prev k = Inr (fieldName, operator, flag) \<longrightarrow> incompatible operator v"
  shows "(\<exists>m. FilterToSQL p batch = (p, Some (Panic m)))
       \<and> (\<exists>m. ExcludeToSQL p batch = (p, Some (Panic m)))"
proof -
  obtain m where "filterHandler (Operator p) batch = Inl (Panic m)"
    using filterHandler_incompatible [OF assms] by blast
  then show ?thesis
    by (simp add: FilterToSQL_def ExcludeToSQL_def)
qed

theorem incompatible_pair_panics_witness:
  "(\<exists>m. FilterToSQL (NewQuerySet OperatorSQL)
           [(''name'', Val String ''x''), (''age__in'', Val IntKind ''3'')]
         = (NewQuerySet OperatorSQL, Some (Panic m)))
   \<and> (\<exists>m. ExcludeToSQL (NewQuerySet OperatorSQL)
           [(''name'', Val String ''x''), (''age__in'', Val IntKind ''3'')]
         = (NewQuerySet OperatorSQL, Some (Panic m)))"
  using incompatible_pair_panics [of "''age__in''" "Val IntKind ''3''"
      "[(''name'', Val String ''x''), (''age__in'', Val IntKind ''3'')]" "NewQuerySet OperatorSQL"]
  by (simp add: parseLookups_def Split_def incompatible_def scalarKind_def)

text \<open>
  Claim C3 as the specification words it asks for an error reported to the caller and
  not a panic. The empty collection of its own example ends \<^verbatim>\<open>FilterToSQL\<close> in
  the panic of \<^verbatim>\<open>log.Panicf\<close>.
\<close>

theorem empty_collection_panic_counterexample:
  "FilterToSQL (NewQuerySet OperatorSQL) [(''age__in'', SliceVal IntKind [])]
     = (NewQuerySet OperatorSQL, Some (Panic ''Empty slice or array for key [age__in].''))"
  by (simp add: FilterToSQL_def NewQuerySet_def filterHandler_def parseLookups_def Split_def
      compileValue_def scalarKind_def Len_def)

section \<open>The condition set accumulator\<close>

text \<open>
  The loops of \<^verbatim>\<open>GetQuerySet\<close> over the accumulated conditions: what they
  build, for every state whose override text is empty.
\<close>

lemma GetQuerySet_accumulated:
  assumes "SQL (whereCondition p) = []"
  shows "GetQuerySet p =
     (if filterCondition p = [] \<and> excludeCondition p = [] then Inr ([], [])
      else Inr ('' WHERE ''
                 @ Join (map (\<lambda>v. ''('' @ SQL v @ '')'') (filterCondition p)
                         @ map (\<lambda>v. ''NOT ('' @ SQL v @ '')'') (excludeCondition p)) '' AND '',
                concat (map Args (filterCondition p)) @ concat (map Args (excludeCondition p))))"
proof (cases "filterCondition p = [] \<and> excludeCondition p = []")
  case True
  with assms show ?thesis
    by (simp add: GetQuerySet_def)
next
  case False
  let ?inc = "foldl (\<lambda>acc v. (fst acc @ ''('' @ SQL v @ '') AND '', snd acc @ Args v))
                ([], []) (filterCondition p)"
  let ?exc = "foldl (\<lambda>acc v. (fst acc @ ''NOT ('' @ SQL v @ '') AND '', snd acc @ Args v))
                ?inc (excludeCondition p)"
  define parts where
    "parts = map (\<lambda>v. ''('' @ SQL v @ '')'') (filterCondition p)
             @ map (\<lambda>v. ''NOT ('' @ SQL v @ '')'') (excludeCondition p)"
  define J where "J = Join parts '' AND ''"
  define sql where "sql = fst ?exc"
  define args where "args = snd ?exc"
  have nonempty: "parts \<noteq> []"
    using False by (simp add: parts_def)
  have shape: "\<forall>x \<in> set parts. x \<noteq> [] \<and> (hd x = CHR ''('' \<or> hd x = CHR ''N'') \<and> last x = CHR '')''"
    by (auto simp add: parts_def)
  have exc_eq: "?exc = (concat (map (\<lambda>v. ''('' @ SQL v @ '') AND '') (filterCondition p))
                          @ concat (map (\<lambda>v. ''NOT ('' @ SQL v @ '') AND '') (excludeCondition p)),
                        concat (map Args (filterCondition p)) @ concat (map Args (excludeCondition p)))"
    by (simp only: foldl_fragments append_Nil)
  have "sql = concat (map (\<lambda>x. x @ '' AND '') parts)"
    unfolding sql_def exc_eq by (simp add: parts_def comp_def)
  then have sql: "sql = J @ '' AND ''"
    using nonempty by (simp add: concat_map_sep J_def)
  have args: "args = concat (map Args (filterCondition p)) @ concat (map Args (excludeCondition p))"
    unfolding args_def exc_eq by simp
  have "int (length sql) - 4 = int (length J + 1)"
    by (simp add: sql)
  then have "sliceTo sql (int (length sql) - 4) = Inr (take (length J + 1) sql)"
    by (simp only: sliceTo_int) (simp add: sql)
  then have slice: "sliceTo sql (int (length sql) - 4) = Inr (J @ '' '')"
    by (simp add: sql)
  have trim: "TrimSpace (J @ '' '') = J"
    unfolding J_def using nonempty shape by (rule Join_clause_shape)
  have c1: "\<not> SQL (whereCondition p) \<noteq> []"
    using assms by simp
  have c2: "\<not> (length (filterCondition p) = 0 \<and> length (excludeCondition p) = 0)"
    using False by simp
  have "GetQuerySet p =
          (case sliceTo sql (int (length sql) - 4) of
             Inl e \<Rightarrow> Inl e
           | Inr s \<Rightarrow> Inr ('' WHERE '' @ TrimSpace s, args))"
    unfolding GetQuerySet_def Let_def sql_def args_def
    by (simp only: c1 c2 if_False)
  then have "GetQuerySet p = Inr ('' WHERE '' @ J, args)"
    by (simp add: slice trim)
  then show ?thesis
    using False by (simp add: J_def parts_def args)
qed

text \<open>
  Claim C6: with no raw override, assembly gives \<^verbatim>\<open>" WHERE "\<close>, then every
  include fragment in parentheses and every exclude fragment as
  \<^verbatim>\<open>NOT (...)\<close>, includes first, joined by \<^verbatim>\<open>" AND "\<close> (the join puts
  the keyword between fragments only, so none trails), with the arguments of the
  include batches and then of the exclude batches, in the order of accumulation; with
  both sequences empty, clause and arguments are empty. The call returns: the slice
  bound of \<^verbatim>\<open>sql[:len(sql)-4]\<close> is in range.
\<close>

theorem GetQuerySet_assembly:
  assumes "SQL (whereCondition p) = []"
  shows "GetQuerySet p =
     (if filterCondition p = [] \<and> excludeCondition p = [] then Inr ([], [])
      else Inr ('' WHERE ''
                 @ Join (map (\<lambda>v. ''('' @ SQL v @ '')'') (filterCondition p)
                         @ map (\<lambda>v. ''NOT ('' @ SQL v @ '')'') (excludeCondition p)) '' AND '',
                concat (map Args (filterCondition p)) @ concat (map Args (excludeCondition p))))"
  using assms by (rule GetQuerySet_accumulated)

lemma scenario_state:
  "applyCalls (NewQuerySet OperatorSQL)
     [CallFilter [(''age__gte'', Val IntKind ''18'')],
      CallExclude [(''deleted__exact'', Val Bool ''true'')]]
   = (NewQuerySet OperatorSQL
        \<lparr>filterCondition := [\<lparr>SQL = ''`age`>=?'', Args = [Val IntKind ''18'']\<rparr>],
         excludeCondition := [\<lparr>SQL = ''`deleted`=?'', Args = [Val Bool ''true'']\<rparr>]\<rparr>,
      None)"
proof -
  have f: "filterHandler OperatorSQL [(''age__gte'', Val IntKind ''18'')]
             = Inr (''`age`>=?'', [Val IntKind ''18''])"
    by code_simp
  have e: "filterHandler OperatorSQL [(''deleted__exact'', Val Bool ''true'')]
             = Inr (''`deleted`=?'', [Val Bool ''true''])"
    by code_simp
  show ?thesis
    by (simp add: FilterToSQL_def ExcludeToSQL_def NewQuerySet_def f e)
qed

theorem GetQuerySet_assembly_witness:
  "SQL (whereCondition (fst (applyCalls (NewQuerySet OperatorSQL)
       [CallFilter [(''age__gte'', Val IntKind ''18'')],
        CallExclude [(''deleted__exact'', Val Bool ''true'')]]))) = []
   \<and> GetQuerySet (fst (applyCalls (NewQuerySet OperatorSQL)
       [CallFilter [(''age__gte'', Val IntKind ''18'')],
        CallExclude [(''deleted__exact'', Val Bool ''true'')]]))
     = Inr ('' WHERE (`age`>=?) AND NOT (`deleted`=?)'', [Val IntKind ''18'', Val Bool ''true''])"
  using GetQuerySet_assembly [of "fst (applyCalls (NewQuerySet OperatorSQL)
       [CallFilter [(''age__gte'', Val IntKind ''18'')],
        CallExclude [(''deleted__exact'', Val Bool ''true'')]])"]
  unfolding scenario_state
  by (simp add: NewQuerySet_def)

subsection \<open>The raw override\<close>

lemma FilterToSQL_whereCondition:
  "whereCondition (fst (FilterToSQL p f)) = whereCondition p"
  by (simp add: FilterToSQL_def split: sum.splits prod.splits)

lemma ExcludeToSQL_whereCondition:
  "whereCondition (fst (ExcludeToSQL p f)) = whereCondition p"
  by (simp add: ExcludeToSQL_def split: sum.splits prod.splits)

lemma applyCall_whereCondition:
  "whereCondition (fst (applyCall p c)) = whereCondition p"
  by (cases c) (simp_all add: FilterToSQL_whereCondition ExcludeToSQL_whereCondition)

lemma applyCalls_whereCondition:
  "whereCondition (fst (applyCalls p cs)) = whereCondition p"
proof (induction cs arbitrary: p)
  case Nil
  show ?case by simp
next
  case (Cons c cs)
  obtain p' r where step: "applyCall p c = (p', r)"
    by (cases "applyCall p c")
  have keep: "whereCondition p' = whereCondition p"
    using applyCall_whereCondition [of p c] step by simp
  show ?case
  proof (cases r)
    case None
    with step keep Cons.IH [of p'] show ?thesis by simp
  next
    case (Some e)
    with step keep show ?thesis by simp
  qed
qed

text \<open>
  Claim C7, as the code has it: after \<^verbatim>\<open>WhereToSQL(cond, args)\<close> with a
  condition that is not empty, assembly gives \<^verbatim>\<open>" WHERE " + cond\<close> with
  exactly \<open>args\<close>, whatever \<^verbatim>\<open>FilterToSQL\<close> and \<^verbatim>\<open>ExcludeToSQL\<close>
  calls came before and after it.
\<close>

theorem GetQuerySet_raw_override:
  assumes "cond \<noteq> []"
  shows "GetQuerySet (fst (applyCalls (WhereToSQL (fst (applyCalls p before)) cond args) after))
           = Inr ('' WHERE '' @ cond, args)"
proof -
  have "whereCondition (fst (applyCalls (WhereToSQL (fst (applyCalls p before)) cond args) after))
          = \<lparr>SQL = cond, Args = args\<rparr>"
    by (simp add: applyCalls_whereCondition WhereToSQL_def)
  with assms show ?thesis
    by (simp add: GetQuerySet_def)
qed

theorem GetQuerySet_raw_override_witness:
  "GetQuerySet (fst (applyCalls
       (WhereToSQL
          (fst (applyCalls (NewQuerySet OperatorSQL)
                  [CallFilter [(''age__gte'', Val IntKind ''18'')]]))
          ''custom = ?'' [Val IntKind ''5''])
       [CallExclude [(''deleted'', Val Bool ''true'')]]))
     = Inr ('' WHERE custom = ?'', [Val IntKind ''5''])"
  using GetQuerySet_raw_override [of "''custom = ?''" "NewQuerySet OperatorSQL"
      "[CallFilter [(''age__gte'', Val IntKind ''18'')]]" "[Val IntKind ''5'']"
      "[CallExclude [(''deleted'', Val Bool ''true'')]]"]
  by simp

text \<open>
  Claim C7 as the specification words it holds for any condition. With the empty
  condition the override is not consulted: the fragment of the earlier
  \<^verbatim>\<open>FilterToSQL\<close> call is the clause, and the arguments of
  \<^verbatim>\<open>WhereToSQL\<close> are dropped.
\<close>

theorem GetQuerySet_empty_override_counterexample:
  "GetQuerySet (WhereToSQL
       (fst (FilterToSQL (NewQuerySet OperatorSQL) [(''age__gte'', Val IntKind ''18'')]))
       [] [Val IntKind ''5''])
     = Inr ('' WHERE (`age`>=?)'', [Val IntKind ''18''])
   \<and> GetQuerySet (WhereToSQL
       (fst (FilterToSQL (NewQuerySet OperatorSQL) [(''age__gte'', Val IntKind ''18'')]))
       [] [Val IntKind ''5''])
     \<noteq> Inr ('' WHERE '' @ [], [Val IntKind ''5''])"
  by code_simp

lemma three_batches_state:
  "applyCalls (NewQuerySet OperatorSQL)
     [CallFilter [(''age__gte'', Val IntKind ''18'')],
      CallFilter [(''status'', Val String ''A'')],
      CallExclude [(''deleted__exact'', Val Bool ''true'')]]
   = (NewQuerySet OperatorSQL
        \<lparr>filterCondition := [\<lparr>SQL = ''`age`>=?'', Args = [Val IntKind ''18'']\<rparr>,
                             \<lparr>SQL = ''`status`=?'', Args = [Val String ''A'']\<rparr>],
         excludeCondition := [\<lparr>SQL = ''`deleted`=?'', Args = [Val Bool ''true'']\<rparr>]\<rparr>,
      None)"
proof -
  have f: "filterHandler OperatorSQL [(''age__gte'', Val IntKind ''18'')]
             = Inr (''`age`>=?'', [Val IntKind ''18''])"
    by code_simp
  have g: "filterHandler OperatorSQL [(''status'', Val String ''A'')]
             = Inr (''`status`=?'', [Val String ''A''])"
    by code_simp
  have e: "filterHandler OperatorSQL [(''deleted__exact'', Val Bool ''true'')]
             = Inr (''`deleted`=?'', [Val Bool ''true''])"
    by code_simp
  show ?thesis
    by (simp add: FilterToSQL_def ExcludeToSQL_def NewQuerySet_def f g e)
qed

text \<open>
  Claim C10: \<^verbatim>\<open>WhereToSQL\<close> with the empty condition is, for assembly, as if
  no override had been set (the override of a new query set is the empty condition
  with no arguments): \<^verbatim>\<open>GetQuerySet\<close> takes the override when its text is not
  empty, and otherwise falls back to the accumulated conditions, that is, it gives
  the clause and the arguments assembled from every include and every exclude
  fragment (nothing when there is none), with no trace of the arguments
  \<^verbatim>\<open>WhereToSQL\<close> was given.
\<close>

theorem WhereToSQL_empty_is_unset:
  "GetQuerySet (WhereToSQL p [] args) =
     (if filterCondition p = [] \<and> excludeCondition p = [] then Inr ([], [])
      else Inr ('' WHERE ''
                 @ Join (map (\<lambda>v. ''('' @ SQL v @ '')'') (filterCondition p)
                         @ map (\<lambda>v. ''NOT ('' @ SQL v @ '')'') (excludeCondition p)) '' AND '',
                concat (map Args (filterCondition p)) @ concat (map Args (excludeCondition p))))
   \<and> GetQuerySet (WhereToSQL p [] args)
       = GetQuerySet (p\<lparr>whereCondition := \<lparr>SQL = [], Args = []\<rparr>\<rparr>)
   \<and> (SQL (whereCondition p) \<noteq> [] \<longrightarrow>
        GetQuerySet p = Inr ('' WHERE '' @ SQL (whereCondition p), Args (whereCondition p)))
   \<and> (SQL (whereCondition p) = [] \<longrightarrow>
        GetQuerySet p = GetQuerySet (p\<lparr>whereCondition := \<lparr>SQL = [], Args = []\<rparr>\<rparr>)
        \<and> GetQuerySet p =
            (if filterCondition p = [] \<and> excludeCondition p = [] then Inr ([], [])
             else Inr ('' WHERE ''
                        @ Join (map (\<lambda>v. ''('' @ SQL v @ '')'') (filterCondition p)
                                @ map (\<lambda>v. ''NOT ('' @ SQL v @ '')'') (excludeCondition p))
                            '' AND '',
                       concat (map Args (filterCondition p))
                         @ concat (map Args (excludeCondition p)))))"
proof -
  have fallback: "GetQuerySet (WhereToSQL p [] args) =
     (if filterCondition p = [] \<and> excludeCondition p = [] then Inr ([], [])
      else Inr ('' WHERE ''
                 @ Join (map (\<lambda>v. ''('' @ SQL v @ '')'') (filterCondition p)
                         @ map (\<lambda>v. ''NOT ('' @ SQL v @ '')'') (excludeCondition p)) '' AND '',
                concat (map Args (filterCondition p)) @ concat (map Args (excludeCondition p))))"
    using GetQuerySet_accumulated [of "WhereToSQL p [] args"]
    by (simp add: WhereToSQL_def)
  have cleared: "GetQuerySet (WhereToSQL p [] args)
       = GetQuerySet (p\<lparr>whereCondition := \<lparr>SQL = [], Args = []\<rparr>\<rparr>)"
    by (simp add: GetQuerySet_def WhereToSQL_def)
  have override: "SQL (whereCondition p) \<noteq> [] \<longrightarrow>
        GetQuerySet p = Inr ('' WHERE '' @ SQL (whereCondition p), Args (whereCondition p))"
    by (simp add: GetQuerySet_def)
  have unset: "SQL (whereCondition p) = [] \<longrightarrow>
        GetQuerySet p = GetQuerySet (p\<lparr>whereCondition := \<lparr>SQL = [], Args = []\<rparr>\<rparr>)"
    by (simp add: GetQuerySet_def)
  have accumulated: "SQL (whereCondition p) = [] \<longrightarrow>
        GetQuerySet p =
            (if filterCondition p = [] \<and> excludeCondition p = [] then Inr ([], [])
             else Inr ('' WHERE ''
                        @ Join (map (\<lambda>v. ''('' @ SQL v @ '')'') (filterCondition p)
                                @ map (\<lambda>v. ''NOT ('' @ SQL v @ '')'') (excludeCondition p))
                            '' AND '',
                       concat (map Args (filterCondition p))
                         @ concat (map Args (excludeCondition p))))"
    using GetQuerySet_accumulated [of p] by blast
  from fallback cleared override unset accumulated show ?thesis
    by blast
qed

theorem WhereToSQL_empty_is_unset_witness:
  "GetQuerySet (WhereToSQL
       (fst (applyCalls (NewQuerySet OperatorSQL)
          [CallFilter [(''age__gte'', Val IntKind ''18'')],
           CallFilter [(''status'', Val String ''A'')],
           CallExclude [(''deleted__exact'', Val Bool ''true'')]]))
       [] [Val IntKind ''5''])
     = Inr ('' WHERE (`age`>=?) AND (`status`=?) AND NOT (`deleted`=?)'',
            [Val IntKind ''18'', Val String ''A'', Val Bool ''true''])
   \<and> GetQuerySet (WhereToSQL (NewQuerySet OperatorSQL) [] [Val IntKind ''5'']) = Inr ([], [])
   \<and> SQL (whereCondition (WhereToSQL (NewQuerySet OperatorSQL) ''a = ?'' [Val IntKind ''5''])) \<noteq> []
   \<and> GetQuerySet (WhereToSQL (NewQuerySet OperatorSQL) ''a = ?'' [Val IntKind ''5''])
     = Inr ('' WHERE a = ?'', [Val IntKind ''5''])"
proof -
  have override: "SQL (whereCondition (WhereToSQL (NewQuerySet OperatorSQL) ''a = ?'' [Val IntKind ''5''])) = ''a = ?''"
    and args: "Args (whereCondition (WhereToSQL (NewQuerySet OperatorSQL) ''a = ?'' [Val IntKind ''5''])) = [Val IntKind ''5'']"
    by (simp_all add: WhereToSQL_def)
  have accumulated: "GetQuerySet (WhereToSQL
       (fst (applyCalls (NewQuerySet OperatorSQL)
          [CallFilter [(''age__gte'', Val IntKind ''18'')],
           CallFilter [(''status'', Val String ''A'')],
           CallExclude [(''deleted__exact'', Val Bool ''true'')]]))
       [] [Val IntKind ''5''])
     = Inr ('' WHERE (`age`>=?) AND (`status`=?) AND NOT (`deleted`=?)'',
            [Val IntKind ''18'', Val String ''A'', Val Bool ''true''])"
    using
      WhereToSQL_empty_is_unset
        [of "fst (applyCalls (NewQuerySet OperatorSQL)
          [CallFilter [(''age__gte'', Val IntKind ''18'')],
           CallFilter [(''status'', Val String ''A'')],
           CallExclude [(''deleted__exact'', Val Bool ''true'')]])"
            "[Val IntKind ''5'']", THEN conjunct1]
    unfolding three_batches_state
    by (simp add: NewQuerySet_def)
  have empty_state: "GetQuerySet (WhereToSQL (NewQuerySet OperatorSQL) [] [Val IntKind ''5'']) = Inr ([], [])"
    using WhereToSQL_empty_is_unset [of "NewQuerySet OperatorSQL" "[Val IntKind ''5'']", THEN conjunct1]
    by (simp add: NewQuerySet_def)
  have raw: "GetQuerySet (WhereToSQL (NewQuerySet OperatorSQL) ''a = ?'' [Val IntKind ''5''])
     = Inr ('' WHERE a = ?'', [Val IntKind ''5''])"
    using
      WhereToSQL_empty_is_unset
        [of "WhereToSQL (NewQuerySet OperatorSQL) ''a = ?'' [Val IntKind ''5'']",
         THEN conjunct2, THEN conjunct2, THEN conjunct1]
    by (simp add: override args)
  have nonempty: "SQL (whereCondition (WhereToSQL (NewQuerySet OperatorSQL) ''a = ?'' [Val IntKind ''5''])) \<noteq> []"
    by (simp add: override)
  from accumulated empty_state nonempty raw show ?thesis
    by (intro conjI)
qed

section \<open>The clause builders\<close>

text \<open>
  Claim C8: a column with a leading \<open>-\<close> is rendered \<^verbatim>\<open>DESC\<close> and one without
  it \<^verbatim>\<open>ASC\<close>, whatever the other columns of the call are.
  \<^verbatim>\<open>asc\<close> is set before the loop and never set back to true: after a column
  with \<open>-\<close>, every later column of the same call is rendered \<^verbatim>\<open>DESC\<close>.
\<close>

theorem OrderByToSQL_descending_sticks:
  "GetOrderBySQL (OrderByToSQL (NewQuerySet OperatorSQL) [''-a'', ''b''])
     = '' ORDER BY `a` DESC, `b` DESC''"
  by code_simp

text \<open>
  The rest of the claim holds: a call with no entries changes nothing, and the terms
  of successive calls accumulate, each call starting ascending again.
\<close>

lemma OrderByToSQL_no_entries:
  "OrderByToSQL p [] = p"
  by (simp add: OrderByToSQL_def)

lemma OrderByToSQL_accumulates:
  "GetOrderBySQL (OrderByToSQL (OrderByToSQL (NewQuerySet OperatorSQL) [''-a'']) [''b''])
     = '' ORDER BY `a` DESC, `b` ASC''"
  by code_simp

text \<open>
  Claim C9: \<^verbatim>\<open>GroupByToSQL\<close> replaces the group specification, and an empty
  column list means no GROUP BY, the output being the empty string.
  With the empty list \<^verbatim>\<open>groupSQL\<close> becomes two backticks, which is not the
  empty string \<^verbatim>\<open>GetGroupBySQL\<close> tests for.
\<close>

theorem GroupByToSQL_empty_list:
  "GetGroupBySQL (GroupByToSQL (NewQuerySet OperatorSQL) []) = '' GROUP BY ``''"
  by code_simp

text \<open>
  A call replaces what an earlier call set, and its output is never the empty string.
\<close>

lemma GroupByToSQL_replaces:
  "GetGroupBySQL (GroupByToSQL (GroupByToSQL p earlier) groupBy)
     = '' GROUP BY `'' @ Join groupBy ''`,`'' @ ''`''"
  by (simp add: GetGroupBySQL_def GroupByToSQL_def)

lemma GroupByToSQL_two_columns:
  "GetGroupBySQL (GroupByToSQL (GroupByToSQL p earlier) [''a'', ''b'']) = '' GROUP BY `a`,`b`''"
  by (simp add: GetGroupBySQL_def GroupByToSQL_def)

end
